theory Spec2Isabelle
  imports Main
begin

section \<open>The reply workflow (agents/agent\_state.py, agent\_nodes.py, email\_agent.py)\<close>

text \<open>
  Python strings are modelled as \<^typ>\<open>string\<close> holding the UTF-8 encoding of the text.
  The encoding is injective and commutes with concatenation, and the empty text is the
  empty byte list, so equality, concatenation and the truth value of a string are the
  ones of the source.
\<close>

subsection \<open>Data\<close>

text \<open>
  The dictionary of an incoming mail (\<open>EmailMessage.to_dict()\<close>). The keys \<open>bcc\<close>,
  \<open>attachments\<close> and \<open>body_type\<close> are left out: no code modelled here reads them.
\<close>

record EmailMessage =
  msg_id :: string
  subject :: string
  from_email :: string
  from_name :: string
  to_email :: string
  date :: string
  body :: string
  cc :: "string list"

text \<open>A tool call requested by the language model: tool name and serialised arguments.\<close>

datatype tool_call = ToolCall (tc_name: string) (tc_args: string)

text \<open>
  The LangChain message classes that occur in the conversation. A \<open>ToolMessage\<close> carries
  the name of the tool that produced it, its content and whether the tool run succeeded.
  An \<open>AIMessage\<close> carries its content and its \<open>tool_calls\<close>.
\<close>

datatype message =
    SystemMessage string
  | HumanMessage string
  | AIMessage string "tool_call list"
  | ToolMessage string string bool

text \<open>\<open>getattr(m, 'name')\<close>: only tool results carry a name in this workflow.\<close>

fun name_of :: "message \<Rightarrow> string option" where
  "name_of (ToolMessage n c ok) = Some n"
| "name_of m = None"

text \<open>\<open>hasattr(m, 'tool_calls') and m.tool_calls\<close>\<close>

fun has_tool_calls :: "message \<Rightarrow> bool" where
  "has_tool_calls (AIMessage c calls) = (calls \<noteq> [])"
| "has_tool_calls m = False"

text \<open>
  The state \<open>Task\<close>. A missing key is read through \<open>state.get(key, default)\<close>
  everywhere, so \<open>status\<close> holds \<open>''''\<close> and \<open>email_replied\<close> holds \<open>False\<close> when the key
  is absent; \<open>task_subject\<close> (key \<open>subject\<close>) and \<open>error\<close> are \<open>None\<close> when absent.
  \<open>email_message\<close> is \<open>None\<close> when the key is absent or the dictionary is empty
  (both are falsy in \<open>if not email_message\<close>).
\<close>

record Task =
  messages :: "message list"
  status :: string
  email_message :: "EmailMessage option"
  error :: "string option"
  email_replied :: bool
  task_subject :: "string option"

text \<open>
  The channel \<open>messages\<close> is declared \<open>Annotated[List, add_messages]\<close>: an update is
  merged into the conversation by LangGraph's reducer. The reducer turns a bare string
  into one human message and appends messages whose id is new; every message written by
  this workflow is new, so the reducer is list concatenation.
\<close>

definition add_messages :: "message list \<Rightarrow> message list \<Rightarrow> message list" where
  "add_messages left right = left @ right"

definition text_update :: "string \<Rightarrow> message list" where
  "text_update s = [HumanMessage s]"

text \<open>
  Everything outside the process: the inputs the language model was invoked with, the
  calls of \<open>send_simple_email\<close> (recipient, subject, content) made by the node
  \<open>send_email\<close>, and the tool calls executed by the tool node.
\<close>

record world =
  llm_log :: "message list list"
  outbox :: "(string \<times> string option \<times> string) list"
  tool_log :: "tool_call list"

text \<open>Result of \<open>QQEmailService.send_simple_email\<close>: the dictionary's \<open>success\<close> and
  \<open>message\<close>, or an exception with its text.\<close>

datatype send_result = SendResult bool string | SendRaised string

text \<open>
  \<open>WrokflowNodes\<close>: the collaborators and configuration held by the node object. The
  language model, the mail service and the tools are external; each is a function of
  the number of earlier calls and of its arguments, so successive calls may answer
  differently. \<open>llm\<close> returns \<open>Inl\<close> with the exception text when \<open>invoke\<close> raises, and
  otherwise the content and tool calls of the returned \<open>AIMessage\<close>. The wording of the
  system prompt is a parameter; it is formatted with the master address.
\<close>

record nodes =
  llm :: "nat \<Rightarrow> message list \<Rightarrow> string + (string \<times> tool_call list)"
  master_email :: string
  assistant_email :: string
  send_simple_email :: "nat \<Rightarrow> string \<Rightarrow> string option \<Rightarrow> string \<Rightarrow> send_result"
  run_tool :: "nat \<Rightarrow> tool_call \<Rightarrow> string \<times> bool"
  system_prompt :: "string \<Rightarrow> string"

subsection \<open>String literals of the source\<close>

definition reply_prefix :: string where
  "reply_prefix = [CHR 0xE5, CHR 0x9B, CHR 0x9E, CHR 0xE5, CHR 0xA4, CHR 0x8D] @ '':''"

definition placeholder_content :: string where
  "placeholder_content = ''Agent'' @ [CHR 0xE6, CHR 0xB2, CHR 0xA1, CHR 0xE6, CHR 0x9C, CHR 0x89,
     CHR 0xE6, CHR 0xAD, CHR 0xA3, CHR 0xE7, CHR 0xA1, CHR 0xAE, CHR 0xE8, CHR 0xBF, CHR 0x94,
     CHR 0xE5, CHR 0x9B, CHR 0x9E, CHR 0xE5, CHR 0x86, CHR 0x85, CHR 0xE5, CHR 0xAE, CHR 0xB9,
     CHR 0xEF, CHR 0xBD, CHR 0x9E]"

definition mail_sent_note :: string where
  "mail_sent_note = [CHR 0xE9, CHR 0x82, CHR 0xAE, CHR 0xE4, CHR 0xBB, CHR 0xB6, CHR 0xE5, CHR 0xB7,
     CHR 0xB2, CHR 0xE5, CHR 0x8F, CHR 0x91, CHR 0xE9, CHR 0x80, CHR 0x81, CHR 0xEF, CHR 0xBC,
     CHR 0x8C, CHR 0xE4, CHR 0xBB, CHR 0xBB, CHR 0xE5, CHR 0x8A, CHR 0xA1, CHR 0xE5, CHR 0xAE,
     CHR 0x8C, CHR 0xE6, CHR 0x88, CHR 0x90]"

definition indent :: string where
  "indent = replicate 20 (CHR '' '')"

text \<open>The f-string \<open>email_content\<close> of \<open>process_email\<close>.\<close>

definition email_content :: "EmailMessage \<Rightarrow> string" where
  "email_content m =
     [CHR 0x0A] @ indent @ [CHR 0xE4, CHR 0xB8, CHR 0xBB, CHR 0xE9, CHR 0xA2, CHR 0x98] @ '': '' @ subject m
     @ [CHR 0x0A] @ indent @ [CHR 0xE5, CHR 0x8F, CHR 0x91, CHR 0xE4, CHR 0xBB, CHR 0xB6, CHR 0xE4, CHR 0xBA, CHR 0xBA]
       @ '': '' @ from_name m @ '' <'' @ from_email m @ ''>''
     @ [CHR 0x0A] @ indent @ [CHR 0xE6, CHR 0x97, CHR 0xA5, CHR 0xE6, CHR 0x9C, CHR 0x9F] @ '': '' @ date m
     @ [CHR 0x0A] @ indent @ [CHR 0xE6, CHR 0xAD, CHR 0xA3, CHR 0xE6, CHR 0x96, CHR 0x87] @ '':''
     @ [CHR 0x0A] @ indent @ body m
     @ [CHR 0x0A] @ indent"

subsection \<open>The nodes\<close>

text \<open>
  \<open>WrokflowNodes.process_email\<close>. Each branch of the source returns a partial update; the
  model applies it to the state (\<open>messages\<close> through \<^const>\<open>add_messages\<close>, the other keys
  by overwriting). The only call inside the \<open>try\<close> that can raise is \<open>llm.invoke\<close>.
  \<open>llm_input\<close> is the list \<open>messages\<close> handed to \<open>llm.invoke\<close>: the two prompt messages
  when the history is empty, the history otherwise.
\<close>

definition llm_input :: "nodes \<Rightarrow> EmailMessage \<Rightarrow> message list \<Rightarrow> message list" where
  "llm_input N m history_messages =
     (if length history_messages = 0
      then [SystemMessage (system_prompt N (master_email N)), HumanMessage (email_content m)]
      else history_messages)"

definition process_email :: "nodes \<Rightarrow> world \<times> Task \<Rightarrow> world \<times> Task" where
  "process_email N s =
     (let w = fst s; t = snd s in
      case email_message t of
        None \<Rightarrow> (w, t\<lparr>email_message := None\<rparr>)
      | Some m \<Rightarrow>
          if email_replied t then
            (w, t\<lparr>status := ''email_proccessed'',
                  messages := add_messages (messages t)
                    (text_update ''Email already replied, skipping duplicate processing'')\<rparr>)
          else if messages t \<noteq> [] \<and> name_of (last (messages t)) = Some ''send_email_simple'' then
            (w, t\<lparr>messages := add_messages (messages t) [AIMessage mail_sent_note []],
                  status := ''success'',
                  email_replied := True\<rparr>)
          else if from_email m = assistant_email N then
            (w, t\<lparr>status := ''ignored'',
                  messages := add_messages (messages t) (text_update ''Ignore email : Self-sent email''),
                  email_replied := False\<rparr>)
          else if from_email m = master_email N then
            (let history_messages = messages t;
                 msgs = llm_input N m history_messages;
                 w' = w\<lparr>llm_log := llm_log w @ [msgs]\<rparr>
             in case llm N (length (llm_log w)) msgs of
                  Inr res \<Rightarrow>
                    (w', t\<lparr>messages := add_messages (messages t) [AIMessage (fst res) (snd res)],
                           status := ''agent_replied'',
                           email_replied := False,
                           task_subject := Some (reply_prefix @ subject m)\<rparr>)
                | Inl e \<Rightarrow>
                    (w', t\<lparr>status := ''agent_processed_failed'',
                           error := Some e,
                           task_subject := Some ''Agent process email error'',
                           messages := add_messages (messages t)
                             (text_update (''Sorry , Agent process email error, detail as below: ''
                                @ e @ '',please try again later!'')),
                           email_replied := False\<rparr>))
          else
            (w, t\<lparr>status := ''ignored'',
                  messages := add_messages (messages t)
                    (text_update ''It's not master's email, No need to reply to the email.''),
                  email_replied := False\<rparr>))"

text \<open>The loop of \<open>send_email\<close> over \<open>reversed(messages)\<close>: the content of the last
  \<open>AIMessage\<close>, or the empty string when there is none.\<close>

fun last_ai_content :: "message list \<Rightarrow> string" where
  "last_ai_content [] = ''''"
| "last_ai_content (AIMessage c calls # rest) = c"
| "last_ai_content (m # rest) = last_ai_content rest"

definition reply_content :: "Task \<Rightarrow> string" where
  "reply_content t =
     (let content = last_ai_content (rev (messages t))
      in if content = '''' then placeholder_content else content)"

text \<open>
  \<open>WrokflowNodes.send_email\<close>. The key \<open>email_subject\<close> of the success branch is not a
  channel of \<open>Task\<close> and is dropped by the graph.
\<close>

definition send_email :: "nodes \<Rightarrow> world \<times> Task \<Rightarrow> world \<times> Task" where
  "send_email N s =
     (let w = fst s; t = snd s;
          to_email = master_email N;
          subj = task_subject t;
          content = reply_content t;
          w' = w\<lparr>outbox := outbox w @ [(to_email, subj, content)]\<rparr>
      in case send_simple_email N (length (outbox w)) to_email subj content of
           SendResult ok msg \<Rightarrow>
             if ok then
               (w', t\<lparr>status := ''send_email_success'',
                      messages := add_messages (messages t) (text_update ''Email has been send''),
                      email_replied := False\<rparr>)
             else
               (w', t\<lparr>status := ''send_email_failed'',
                      messages := add_messages (messages t) (text_update ''Email send error''),
                      email_replied := False,
                      error := Some msg\<rparr>)
         | SendRaised e \<Rightarrow>
               (w', t\<lparr>status := ''send_email_failed'',
                      messages := add_messages (messages t) (text_update ''Email send exception error''),
                      email_replied := False,
                      error := Some e\<rparr>))"

text \<open>\<open>WrokflowNodes.mark_as_replied\<close>\<close>

definition mark_as_replied :: "world \<times> Task \<Rightarrow> world \<times> Task" where
  "mark_as_replied s = (fst s, (snd s)\<lparr>email_replied := True, status := ''email_proccessed''\<rparr>)"

text \<open>
  The prebuilt tool node: it runs every tool call of the last message and appends one
  \<open>ToolMessage\<close> per call, named after the called tool. The router sends a state to this
  node only when its last message is an \<open>AIMessage\<close> with tool calls; on a state without
  such a last message the node raises.
\<close>

fun run_tools :: "nodes \<Rightarrow> nat \<Rightarrow> tool_call list \<Rightarrow> message list" where
  "run_tools N k [] = []"
| "run_tools N k (c # cs) =
     ToolMessage (tc_name c) (fst (run_tool N k c)) (snd (run_tool N k c)) # run_tools N (Suc k) cs"

definition tools_node :: "nodes \<Rightarrow> world \<times> Task \<Rightarrow> (world \<times> Task) option" where
  "tools_node N s =
     (let w = fst s; t = snd s in
      if messages t = [] then None
      else case last (messages t) of
             AIMessage c calls \<Rightarrow>
               Some (w\<lparr>tool_log := tool_log w @ calls\<rparr>,
                     t\<lparr>messages := add_messages (messages t) (run_tools N (length (tool_log w)) calls)\<rparr>)
           | _ \<Rightarrow> None)"

subsection \<open>The graph\<close>

datatype node = PROCESS_EMAIL | TOOLS | SEND_EMAIL | MARK_AS_REPLIED | END

text \<open>\<open>route_after_process\<close> of \<open>EmailAgent.build_workflow\<close>\<close>

definition route_after_process :: "Task \<Rightarrow> node" where
  "route_after_process t =
     (if email_replied t then MARK_AS_REPLIED
      else if status t = ''ignored'' then MARK_AS_REPLIED
      else if messages t \<noteq> [] \<and> has_tool_calls (last (messages t)) then TOOLS
      else SEND_EMAIL)"

datatype run_error = GraphRecursionError | ToolNodeError

text \<open>
  Running the compiled graph from a node. The budget counts the nodes that may still be
  executed; when it is used up before \<open>END\<close> the run raises \<open>GraphRecursionError\<close>.
  Edges: \<open>process_email\<close> to the routed node, \<open>tools\<close> back to \<open>process_email\<close>,
  \<open>send_email\<close> to \<open>mark_as_replied\<close>, \<open>mark_as_replied\<close> to \<open>END\<close>.
\<close>

fun run_from :: "nodes \<Rightarrow> nat \<Rightarrow> node \<Rightarrow> world \<times> Task \<Rightarrow> run_error + world \<times> Task" where
  "run_from N fuel END s = Inr s"
| "run_from N 0 n s = Inl GraphRecursionError"
| "run_from N (Suc k) PROCESS_EMAIL s =
     (let s' = process_email N s in run_from N k (route_after_process (snd s')) s')"
| "run_from N (Suc k) TOOLS s =
     (case tools_node N s of
        None \<Rightarrow> Inl ToolNodeError
      | Some s' \<Rightarrow> run_from N k PROCESS_EMAIL s')"
| "run_from N (Suc k) SEND_EMAIL s = run_from N k MARK_AS_REPLIED (send_email N s)"
| "run_from N (Suc k) MARK_AS_REPLIED s = run_from N k END (mark_as_replied s)"

text \<open>
  \<open>EmailAgent.run\<close> on a fresh agent: the initial state holds the mail and
  \<open>email_replied = False\<close>, every other key is absent, and the graph is invoked at its
  entry point \<open>process_email\<close> with \<open>recursion_limit = 1000\<close>. The library finishes a run
  only when the limit exceeds the number of executed nodes, so the limit grants a budget
  of \<open>recursion_limit - 1\<close> nodes.
\<close>

definition recursion_limit :: nat where
  "recursion_limit = 1000"

definition initial_state :: "EmailMessage \<Rightarrow> Task" where
  "initial_state m =
     \<lparr>messages = [], status = '''', email_message = Some m, error = None,
      email_replied = False, task_subject = None\<rparr>"

definition empty_world :: world where
  "empty_world = \<lparr>llm_log = [], outbox = [], tool_log = []\<rparr>"

definition run :: "nodes \<Rightarrow> EmailMessage \<Rightarrow> run_error + world \<times> Task" where
  "run N m = run_from N (recursion_limit - 1) PROCESS_EMAIL (empty_world, initial_state m)"


text \<open>What a run leaves behind: the calls of \<open>send_simple_email\<close> and the final state;
  \<open>None\<close> when the run raised.\<close>

definition final_outbox :: "run_error + world \<times> Task \<Rightarrow> (string \<times> string option \<times> string) list option" where
  "final_outbox r = (case r of Inl e \<Rightarrow> None | Inr s \<Rightarrow> Some (outbox (fst s)))"

definition final_task :: "run_error + world \<times> Task \<Rightarrow> Task option" where
  "final_task r = (case r of Inl e \<Rightarrow> None | Inr s \<Rightarrow> Some (snd s))"

text \<open>Concrete collaborators and mails used in the examples below.\<close>

definition demo_nodes :: nodes where
  "demo_nodes =
     \<lparr>llm = (\<lambda>k msgs. Inr (''Bonjour'', [])),
      master_email = ''master@example.com'',
      assistant_email = ''assistant@example.com'',
      send_simple_email = (\<lambda>k to_addr subj content. SendResult True ''sent''),
      run_tool = (\<lambda>k c. (''done'', True)),
      system_prompt = (\<lambda>m. ''You are the assistant of '' @ m)\<rparr>"

definition master_mail :: EmailMessage where
  "master_mail =
     \<lparr>msg_id = ''7'', subject = ''Translate this'', from_email = ''master@example.com'',
      from_name = ''Master'', to_email = ''assistant@example.com'',
      date = ''2026-01-01 10:00:00'', body = ''hello'', cc = []\<rparr>"

definition stranger_mail :: EmailMessage where
  "stranger_mail = master_mail\<lparr>msg_id := ''8'', from_email := ''eve@example.com'', from_name := ''Eve''\<rparr>"

definition self_mail :: EmailMessage where
  "self_mail = master_mail\<lparr>msg_id := ''9'', from_email := ''assistant@example.com''\<rparr>"

text \<open>A language model whose invocation raises, and mail services that fail.\<close>

definition failing_nodes :: nodes where
  "failing_nodes = demo_nodes\<lparr>llm := (\<lambda>k msgs. Inl ''boom'')\<rparr>"

definition timeout_nodes :: nodes where
  "timeout_nodes = demo_nodes\<lparr>llm := (\<lambda>k msgs. Inl ''Request timed out.'')\<rparr>"

definition smtp_down_nodes :: nodes where
  "smtp_down_nodes =
     demo_nodes\<lparr>send_simple_email := (\<lambda>k to_addr subj content. SendResult False ''SMTP down'')\<rparr>"

definition smtp_raising_nodes :: nodes where
  "smtp_raising_nodes =
     demo_nodes\<lparr>send_simple_email := (\<lambda>k to_addr subj content. SendRaised ''connection reset'')\<rparr>"

text \<open>The state after the language model answered the master's mail with plain content.\<close>

definition answered_task :: Task where
  "answered_task =
     (initial_state master_mail)\<lparr>messages := [AIMessage ''Bonjour'' []],
        status := ''agent_replied'', task_subject := Some (reply_prefix @ ''Translate this'')\<rparr>"

text \<open>The state after the tool node ran the tool \<open>send_email_simple\<close> for the master's mail.\<close>

definition resumed_task :: Task where
  "resumed_task =
     \<lparr>messages = [AIMessage [] [ToolCall ''send_email_simple'' ''{}''],
                  ToolMessage ''send_email_simple'' ''ok'' True],
      status = ''agent_replied'', email_message = Some master_mail, error = None,
      email_replied = False, task_subject = Some (reply_prefix @ ''Translate this'')\<rparr>"

text \<open>The result of running the workflow on the stranger's mail.\<close>

definition stranger_final :: "world \<times> Task" where
  "stranger_final =
     (empty_world,
      \<lparr>messages = [HumanMessage ''It's not master's email, No need to reply to the email.''],
       status = ''email_proccessed'', email_message = Some stranger_mail, error = None,
       email_replied = True, task_subject = None\<rparr>)"

section \<open>The cache of processed message ids (system\_init.py, email\_listener\_idle.py)\<close>

text \<open>
  \<open>_processed_emails\<close> and \<open>_processed_uids\<close> are Python sets. \<open>list(s)\<close> enumerates a
  set in the order of its hash table, which the language leaves open; the model takes
  that enumeration \<open>order\<close> as a parameter. An enumeration is admissible when it lists
  every element of the set exactly once.
\<close>

definition enumerates :: "('a set \<Rightarrow> 'a list) \<Rightarrow> bool" where
  "enumerates order = (\<forall>S. finite S \<longrightarrow> set (order S) = S \<and> distinct (order S))"

text \<open>
  The locked block of \<open>on_new_email\<close> for an id that is not in the cache yet: add it, and
  when the cache then holds more than 1000 ids remove the first 500 of \<open>list(cache)\<close>.
\<close>

definition remember_processed :: "('a set \<Rightarrow> 'a list) \<Rightarrow> 'a \<Rightarrow> 'a set \<Rightarrow> 'a set" where
  "remember_processed order email_id processed =
     (let processed' = insert email_id processed in
      if card processed' > 1000
      then processed' - set (take 500 (order processed'))
      else processed')"

text \<open>
  The loop of \<open>on_new_email\<close> over the ids of a batch: an id already in the cache is
  skipped, any other id is remembered and its mail is handed to the agent. The result is
  the cache and the ids handed on, in order.
\<close>

fun on_new_email :: "('a set \<Rightarrow> 'a list) \<Rightarrow> 'a list \<Rightarrow> 'a set \<Rightarrow> 'a set \<times> 'a list" where
  "on_new_email order [] processed = (processed, [])"
| "on_new_email order (email_id # rest) processed =
     (if email_id \<in> processed then on_new_email order rest processed
      else let r = on_new_email order rest (remember_processed order email_id processed)
           in (fst r, email_id # snd r))"

text \<open>
  The end of \<open>EmailListenerIdle._handle_new_emails\<close>: a cache of more than 1000 uids is
  replaced by the last 500 of \<open>list(cache)\<close>. Only this statement is modelled: the loop
  before it, which adds the uids, calls \<open>receive_single_email_by_uid\<close>, a method that the
  sources do not define.
\<close>

definition trim_processed_uids :: "('a set \<Rightarrow> 'a list) \<Rightarrow> 'a set \<Rightarrow> 'a set" where
  "trim_processed_uids order processed =
     (if card processed > 1000
      then set (drop (length (order processed) - 500) (order processed))
      else processed)"

section \<open>The polling listener (service/email\_listener.py)\<close>

datatype ListenerMode = IDLE | POLLING | STOPPED

text \<open>Outcome of \<open>receive_latest_emails\<close> / \<open>receive_unread_emails\<close>: a result with
  \<open>success\<close> and the mails, a result without success, or an exception.\<close>

datatype fetch_result = Fetched "EmailMessage list" | FetchFailed | FetchRaised

text \<open>
  The mail server as the listener meets it at start-up: whether it advertises the IDLE
  capability, whether it acknowledges the IDLE command, and what the initial
  synchronisation returns.
\<close>

record transport =
  supports_idle :: bool
  idle_handshake_ok :: bool
  latest_emails :: fetch_result

text \<open>
  The fields of \<open>EmailListener\<close>. \<open>receive_service\<close> and \<open>executor\<close> say whether the
  attribute is set. A future is identified by the number of futures created before it;
  \<open>submitted\<close> is the work handed to the thread pool that has not completed yet,
  \<open>seen_requests\<close> the \<open>store_flags\<close> requests issued. The remaining fields are the
  entries of \<open>_stats\<close>.
\<close>

record EmailListener =
  mode :: ListenerMode
  running :: bool
  last_uid :: "string option"
  receive_service :: bool
  executor :: bool
  pending_futures :: "nat list"
  futures_created :: nat
  submitted :: "(nat \<times> EmailMessage list) list"
  seen_requests :: "string list list"
  total_received :: nat
  idle_failures :: nat
  polling_count :: nat
  mode_switches :: nat
  processing_tasks :: nat
  completed_tasks :: nat
  connection_reuses :: nat
  connection_restarts :: nat

text \<open>\<open>EmailListener.__init__\<close>\<close>

definition new_listener :: EmailListener where
  "new_listener =
     \<lparr>mode = STOPPED, running = False, last_uid = None, receive_service = False,
      executor = False, pending_futures = [], futures_created = 0, submitted = [],
      seen_requests = [], total_received = 0, idle_failures = 0, polling_count = 0,
      mode_switches = 0, processing_tasks = 0, completed_tasks = 0,
      connection_reuses = 0, connection_restarts = 0\<rparr>"

text \<open>
  \<open>EmailListener.start\<close>: the thread pool and the connection are created, the initial
  synchronisation records the id of the newest mail, and the listener thread is started
  with \<open>mode = POLLING\<close>. The assignment \<open>mode = IDLE\<close> is commented out in the source.
\<close>

definition start :: "transport \<Rightarrow> EmailListener \<Rightarrow> EmailListener" where
  "start T L =
     (if running L then L
      else
        let L1 = L\<lparr>executor := True\<rparr>;
            L2 = (if \<not> receive_service L1
                  then L1\<lparr>receive_service := True,
                          connection_restarts := connection_restarts L1 + 1\<rparr>
                  else L1);
            L3 = (case latest_emails T of
                    Fetched emails \<Rightarrow>
                      (if emails \<noteq> [] then L2\<lparr>last_uid := Some (msg_id (hd emails))\<rparr> else L2)
                  | FetchFailed \<Rightarrow> L2
                  | FetchRaised \<Rightarrow> L2\<lparr>receive_service := False\<rparr>)
        in L3\<lparr>running := True, mode := POLLING\<rparr>)"

text \<open>
  \<open>EmailListener._process_new_emails\<close>: count the mails, ask the server to flag them as
  seen (the outcome is only logged), and submit the whole list \<open>emails\<close> to the pool as
  one call of \<open>_execute_callback\<close>, whose future is appended to \<open>_pending_futures\<close>.
\<close>

definition process_new_emails :: "EmailMessage list \<Rightarrow> EmailListener \<Rightarrow> EmailListener" where
  "process_new_emails emails L =
     (if emails = [] then L
      else
        let L1 = L\<lparr>total_received := total_received L + length emails,
                    seen_requests := seen_requests L @ [map msg_id emails]\<rparr>
        in if executor L1 then
             let future = futures_created L1;
                 pending = pending_futures L1 @ [future]
             in L1\<lparr>futures_created := Suc future,
                    submitted := submitted L1 @ [(future, emails)],
                    pending_futures := pending,
                    processing_tasks := length pending\<rparr>
           else L1)"

text \<open>
  \<open>EmailListener._execute_callback\<close> runs the callback on the batch and swallows its
  exception; the result says whether the future carries an exception.
\<close>

datatype callback_outcome = CallbackReturned | CallbackRaised string

definition execute_callback :: "(EmailMessage list \<Rightarrow> callback_outcome) \<Rightarrow> EmailMessage list \<Rightarrow> bool" where
  "execute_callback new_email_callback emails =
     (case new_email_callback emails of
        CallbackReturned \<Rightarrow> False
      | CallbackRaised e \<Rightarrow> False)"

text \<open>\<open>EmailListener._on_task_complete\<close>\<close>

definition on_task_complete :: "nat \<Rightarrow> EmailListener \<Rightarrow> EmailListener" where
  "on_task_complete future L =
     (let pending = (if future \<in> set (pending_futures L)
                     then remove1 future (pending_futures L)
                     else pending_futures L)
      in L\<lparr>pending_futures := pending,
            processing_tasks := length pending,
            completed_tasks := completed_tasks L + 1\<rparr>)"

text \<open>
  A worker of the pool finishes the oldest submitted unit: it runs
  \<open>_execute_callback\<close>, and the done-callback of the future then runs
  \<open>_on_task_complete\<close>. \<open>drain\<close> lets the pool finish everything submitted so far.
\<close>

definition finish_one :: "(EmailMessage list \<Rightarrow> callback_outcome) \<Rightarrow> EmailListener \<Rightarrow> EmailListener" where
  "finish_one new_email_callback L =
     (case submitted L of
        [] \<Rightarrow> L
      | unit # rest \<Rightarrow>
          (let has_exception = execute_callback new_email_callback (snd unit)
           in on_task_complete (fst unit) (L\<lparr>submitted := rest\<rparr>)))"

fun drain :: "(EmailMessage list \<Rightarrow> callback_outcome) \<Rightarrow> nat \<Rightarrow> EmailListener \<Rightarrow> EmailListener" where
  "drain new_email_callback 0 L = L"
| "drain new_email_callback (Suc n) L = drain new_email_callback n (finish_one new_email_callback L)"

text \<open>
  \<open>EmailListener._run_polling_mode_safe\<close> for one outcome of \<open>receive_unread_emails\<close>.
  The second component says whether the method re-raises.
\<close>

definition run_polling_mode_safe :: "fetch_result \<Rightarrow> EmailListener \<Rightarrow> EmailListener \<times> bool" where
  "run_polling_mode_safe r L =
     (let L1 = (if \<not> receive_service L
                then L\<lparr>receive_service := True, connection_restarts := connection_restarts L + 1\<rparr>
                else L)
      in case r of
           Fetched emails \<Rightarrow>
             (let L2 = L1\<lparr>polling_count := polling_count L1 + 1,
                          connection_reuses := connection_reuses L1 + 1\<rparr>;
                  new_emails = filter (\<lambda>e. Some (msg_id e) \<noteq> last_uid L2) emails
              in if new_emails \<noteq> []
                 then (process_new_emails new_emails (L2\<lparr>last_uid := Some (msg_id (hd new_emails))\<rparr>), False)
                 else (L2, False))
         | FetchFailed \<Rightarrow> (L1, False)
         | FetchRaised \<Rightarrow>
             (L1\<lparr>receive_service := False, connection_restarts := connection_restarts L1 + 1\<rparr>, True))"

text \<open>
  \<open>EmailListener._run_listener\<close>: while \<open>_running\<close>, one call of
  \<open>_run_polling_mode_safe\<close> per iteration; an exception is logged and the loop goes on.
  Every call of \<open>_try_idle_mode\<close> in the loop is commented out in the source. The list
  holds the outcome of the poll of each iteration.
\<close>

fun run_listener :: "fetch_result list \<Rightarrow> EmailListener \<Rightarrow> EmailListener" where
  "run_listener [] L = L"
| "run_listener (r # rs) L =
     (if running L then run_listener rs (fst (run_polling_mode_safe r L)) else L)"

definition idle_capable_transport :: transport where
  "idle_capable_transport =
     \<lparr>supports_idle = True, idle_handshake_ok = True, latest_emails = Fetched []\<rparr>"

text \<open>A listener right after \<open>start\<close>, and two callbacks: one returns, one raises.\<close>

definition started_listener :: EmailListener where
  "started_listener = start idle_capable_transport new_listener"

definition returning_callback :: "EmailMessage list \<Rightarrow> callback_outcome" where
  "returning_callback emails = CallbackReturned"

definition raising_callback :: "EmailMessage list \<Rightarrow> callback_outcome" where
  "raising_callback emails = CallbackRaised ''agent failed''"

section \<open>Properties of the reply workflow\<close>

subsection \<open>Steps of the graph\<close>

lemma run_from_mark: "run_from N (Suc k) MARK_AS_REPLIED s = Inr (mark_as_replied s)"
  by simp

lemma run_from_send:
  "run_from N (Suc (Suc k)) SEND_EMAIL s = Inr (mark_as_replied (send_email N s))"
  by simp

lemma run_from_process:
  "run_from N (Suc k) PROCESS_EMAIL s =
     run_from N k (route_after_process (snd (process_email N s))) (process_email N s)"
  by (simp add: Let_def)

lemma route_replied: "email_replied t \<Longrightarrow> route_after_process t = MARK_AS_REPLIED"
  by (simp add: route_after_process_def)

lemma route_not_end: "route_after_process t \<noteq> END"
  by (simp add: route_after_process_def)

lemma mark_as_replied_simps:
  "fst (mark_as_replied s) = fst s"
  "email_replied (snd (mark_as_replied s))"
  "status (snd (mark_as_replied s)) = ''email_proccessed''"
  "messages (snd (mark_as_replied s)) = messages (snd s)"
  "error (snd (mark_as_replied s)) = error (snd s)"
  by (simp_all add: mark_as_replied_def)

lemma send_email_outbox:
  "outbox (fst (send_email N (w, t))) = outbox w @ [(master_email N, task_subject t, reply_content t)]"
  "llm_log (fst (send_email N (w, t))) = llm_log w"
  "tool_log (fst (send_email N (w, t))) = tool_log w"
  by (simp_all add: send_email_def Let_def split: send_result.split)

lemma send_email_error:
  "send_simple_email N (length (outbox w)) (master_email N) (task_subject t) (reply_content t)
     = SendResult False msg \<Longrightarrow> error (snd (send_email N (w, t))) = Some msg"
  "send_simple_email N (length (outbox w)) (master_email N) (task_subject t) (reply_content t)
     = SendRaised e \<Longrightarrow> error (snd (send_email N (w, t))) = Some e"
  by (simp_all add: send_email_def Let_def)

subsection \<open>The guard against a second reply\<close>

lemma process_email_replied:
  "email_replied t \<Longrightarrow>
   fst (process_email N (w, t)) = w \<and> email_replied (snd (process_email N (w, t)))"
  by (simp add: process_email_def Let_def split: option.split)

lemma process_email_sent_by_tool:
  "email_message t = Some m \<Longrightarrow> messages t \<noteq> [] \<Longrightarrow>
   name_of (last (messages t)) = Some ''send_email_simple'' \<Longrightarrow>
   fst (process_email N (w, t)) = w \<and> email_replied (snd (process_email N (w, t)))"
  by (simp add: process_email_def Let_def)

lemma process_email_keeps_mail:
  "email_message (snd (process_email N s)) = email_message (snd s)"
  by (simp add: process_email_def Let_def split: option.split sum.split)

lemma send_email_keeps_mail:
  "email_message (snd (send_email N s)) = email_message (snd s)"
  by (simp add: send_email_def Let_def split: send_result.split)

lemma tools_node_keeps_mail:
  "tools_node N s = Some s' \<Longrightarrow> email_message (snd s') = email_message (snd s)"
  by (auto simp add: tools_node_def Let_def split: if_splits message.splits)

text \<open>No node removes the mail: a run that was started with a mail ends with it.\<close>

lemma run_from_keeps_mail:
  "run_from N fuel n s = Inr r \<Longrightarrow> email_message (snd r) = email_message (snd s)"
proof (induction fuel arbitrary: n s)
  case 0
  then show ?case by (cases n) simp_all
next
  case (Suc k)
  show ?case
  proof (cases n)
    case PROCESS_EMAIL
    with Suc.prems
    have "run_from N k (route_after_process (snd (process_email N s))) (process_email N s) = Inr r"
      by (simp add: Let_def)
    then have "email_message (snd r) = email_message (snd (process_email N s))"
      by (rule Suc.IH)
    then show ?thesis by (simp add: process_email_keeps_mail)
  next
    case TOOLS
    with Suc.prems obtain s' where s': "tools_node N s = Some s'"
      and "run_from N k PROCESS_EMAIL s' = Inr r"
      by (auto split: option.splits)
    then have "email_message (snd r) = email_message (snd s')" using Suc.IH by blast
    then show ?thesis using tools_node_keeps_mail [OF s'] by simp
  next
    case SEND_EMAIL
    with Suc.prems have "run_from N k MARK_AS_REPLIED (send_email N s) = Inr r" by simp
    then have "email_message (snd r) = email_message (snd (send_email N s))"
      by (rule Suc.IH)
    then show ?thesis by (simp add: send_email_keeps_mail)
  next
    case MARK_AS_REPLIED
    with Suc.prems have "r = mark_as_replied s" by simp
    then show ?thesis by (simp add: mark_as_replied_def)
  next
    case END
    with Suc.prems show ?thesis by simp
  qed
qed

text \<open>
  C1. A Task carries the mail it was created for: \<open>EmailAgent.run\<close> stores the
  dictionary of the mail, which is never empty, and no node removes it. For every
  Task whose \<open>email_replied\<close> is already true, and for every Task with its mail whose
  last turn is the result of the tool \<open>send_email_simple\<close> (a successful result in
  particular), the run goes from \<open>process_email\<close> straight to \<open>mark_as_replied\<close> and to
  the end: two nodes, and the world is unchanged, so the language model was not invoked,
  no tool ran, and no reply was composed or sent.
\<close>

theorem idempotency_guard:
  assumes "email_replied t \<or>
           (email_message t \<noteq> None \<and> messages t \<noteq> [] \<and>
            name_of (last (messages t)) = Some ''send_email_simple'')"
  shows "\<exists>t'. run_from N (Suc (Suc k)) PROCESS_EMAIL (w, t) = Inr (w, t')
              \<and> email_replied t' \<and> status t' = ''email_proccessed''"
proof -
  let ?s = "process_email N (w, t)"
  have step: "fst ?s = w \<and> email_replied (snd ?s)"
  proof (cases "email_replied t")
    case True
    then show ?thesis by (rule process_email_replied)
  next
    case False
    with assms obtain m where "email_message t = Some m" "messages t \<noteq> []"
      "name_of (last (messages t)) = Some ''send_email_simple''" by auto
    then show ?thesis by (rule process_email_sent_by_tool)
  qed
  then have "route_after_process (snd ?s) = MARK_AS_REPLIED"
    by (simp add: route_replied)
  then have "run_from N (Suc (Suc k)) PROCESS_EMAIL (w, t) = Inr (mark_as_replied ?s)"
    by (simp add: run_from_process)
  moreover have "mark_as_replied ?s = (w, snd (mark_as_replied ?s))"
    using step by (simp add: mark_as_replied_def)
  ultimately show ?thesis
    using mark_as_replied_simps(2,3) by metis
qed

text \<open>The guard at work on the state left by a successful run of the tool
  \<open>send_email_simple\<close>: the run ends and the node \<open>send_email\<close> sent nothing.\<close>

theorem idempotency_guard_witness:
  "final_outbox (run_from demo_nodes (recursion_limit - 1) PROCESS_EMAIL (empty_world, resumed_task))
     = Some []"
proof -
  have "email_replied resumed_task \<or>
        (email_message resumed_task \<noteq> None \<and> messages resumed_task \<noteq> [] \<and>
         name_of (last (messages resumed_task)) = Some ''send_email_simple'')"
    by (simp add: resumed_task_def)
  then have "final_outbox (run_from demo_nodes (Suc (Suc 997)) PROCESS_EMAIL (empty_world, resumed_task))
               = Some []"
    using idempotency_guard [of resumed_task demo_nodes 997 empty_world]
    by (auto simp add: final_outbox_def empty_world_def)
  then show ?thesis by (simp add: recursion_limit_def)
qed

subsection \<open>Mails that are not answered\<close>





subsection \<open>Failure of the language model\<close>

text \<open>
  C3 at a concrete input: the master's mail on a fresh agent, with a language model
  whose invocation raises \<open>boom\<close>. The run reaches the end with \<open>email_replied\<close> set and
  one reply sent, under the subject of the error branch; the apology with the error
  detail is appended to the conversation as a human turn, and the body of the reply is
  the placeholder, because \<open>send_email\<close> reads the content of the last \<open>AIMessage\<close> only.
\<close>

theorem llm_failure_reply:
  "final_outbox (run failing_nodes master_mail)
     = Some [(''master@example.com'', Some ''Agent process email error'', placeholder_content)]
   \<and> map_option messages (final_task (run failing_nodes master_mail))
     = Some [HumanMessage ''Sorry , Agent process email error, detail as below: boom,please try again later!'',
             HumanMessage ''Email has been send'']
   \<and> map_option email_replied (final_task (run failing_nodes master_mail)) = Some True
   \<and> map_option error (final_task (run failing_nodes master_mail)) = Some (Some ''boom'')"
  by code_simp

subsection \<open>Subject and body of the reply\<close>

lemma process_email_answer:
  assumes "email_message t = Some m" and "\<not> email_replied t"
    and "messages t = [] \<or> name_of (last (messages t)) \<noteq> Some ''send_email_simple''"
    and "from_email m \<noteq> assistant_email N" and "from_email m = master_email N"
    and "llm N (length (llm_log w)) (llm_input N m (messages t)) = Inr (c, calls)"
  shows "process_email N (w, t) =
           (w\<lparr>llm_log := llm_log w @ [llm_input N m (messages t)]\<rparr>,
            t\<lparr>messages := messages t @ [AIMessage c calls], status := ''agent_replied'',
              email_replied := False, task_subject := Some (reply_prefix @ subject m)\<rparr>)"
  using assms by (auto simp add: process_email_def Let_def add_messages_def)

text \<open>
  C6, as the code has it. When the language model answers the master's mail with plain
  content \<open>c\<close> (no tool calls, no exception), the run sends exactly one reply: to the
  master, with subject \<open>reply_prefix\<close> followed by the subject of the mail, and with
  body \<open>c\<close>, or the placeholder when \<open>c\<close> is empty. The state \<open>t\<close> is arbitrary, so this
  covers the entry after tool results as well as the first entry.
\<close>

theorem reply_subject_and_body:
  assumes "email_message t = Some m" and "\<not> email_replied t"
    and "messages t = [] \<or> name_of (last (messages t)) \<noteq> Some ''send_email_simple''"
    and "from_email m \<noteq> assistant_email N" and "from_email m = master_email N"
    and "llm N (length (llm_log w)) (llm_input N m (messages t)) = Inr (c, [])"
  shows "\<exists>w' t'. run_from N (Suc (Suc (Suc k))) PROCESS_EMAIL (w, t) = Inr (w', t')
           \<and> outbox w' = outbox w @
                [(master_email N, Some (reply_prefix @ subject m),
                  if c = [] then placeholder_content else c)]
           \<and> email_replied t'"
proof -
  let ?s = "process_email N (w, t)"
  have s: "?s = (w\<lparr>llm_log := llm_log w @ [llm_input N m (messages t)]\<rparr>,
            t\<lparr>messages := messages t @ [AIMessage c []], status := ''agent_replied'',
              email_replied := False, task_subject := Some (reply_prefix @ subject m)\<rparr>)"
    using process_email_answer [OF assms] .
  have route: "route_after_process (snd ?s) = SEND_EMAIL"
    by (simp add: s route_after_process_def)
  let ?r = "mark_as_replied (send_email N ?s)"
  have "run_from N (Suc (Suc (Suc k))) PROCESS_EMAIL (w, t) = Inr (fst ?r, snd ?r)"
    using route by (simp add: run_from_process)
  moreover have "outbox (fst ?r) = outbox w @
                [(master_email N, Some (reply_prefix @ subject m),
                  if c = [] then placeholder_content else c)]"
    unfolding s by (simp add: mark_as_replied_simps send_email_outbox reply_content_def)
  moreover have "email_replied (snd ?r)"
    by (simp add: mark_as_replied_simps)
  ultimately show ?thesis by blast
qed

text \<open>The master's mail with subject \<open>Translate this\<close>, answered with \<open>Bonjour\<close>.\<close>

theorem reply_subject_and_body_witness:
  "final_outbox (run demo_nodes master_mail)
     = Some [(''master@example.com'', Some (reply_prefix @ ''Translate this''), ''Bonjour'')]"
proof -
  have "final_outbox (run_from demo_nodes (Suc (Suc (Suc 996))) PROCESS_EMAIL
          (empty_world, initial_state master_mail))
     = Some [(''master@example.com'', Some (reply_prefix @ ''Translate this''), ''Bonjour'')]"
    using reply_subject_and_body
      [of "initial_state master_mail" master_mail demo_nodes empty_world "''Bonjour''" 996]
    by (auto simp add: final_outbox_def empty_world_def initial_state_def master_mail_def
        demo_nodes_def)
  then show ?thesis by (simp add: run_def recursion_limit_def)
qed

text \<open>
  C6 as stated fails for an authorized mail whose language-model call raises: the mail
  reaches \<open>send_email\<close>, and the subject of the reply is the fixed subject of the error
  branch, not the prefix followed by the subject of the mail.
\<close>

theorem reply_subject_counterexample:
  "map_option (map (fst \<circ> snd)) (final_outbox (run timeout_nodes master_mail))
     = Some [Some ''Agent process email error'']
   \<and> Some ''Agent process email error'' \<noteq> Some (reply_prefix @ subject master_mail)"
  by code_simp

subsection \<open>After the send\<close>

text \<open>
  C7. From the node \<open>send_email\<close> the run always reaches the end through
  \<open>mark_as_replied\<close>, with \<open>email_replied\<close> set, after exactly one call of
  \<open>send_simple_email\<close> (no second attempt) and without invoking the language model or a
  tool. When the service reports failure, or raises, the detail is stored under \<open>error\<close>.
\<close>

theorem send_outcome_recorded:
  "\<exists>w' t'. run_from N (Suc (Suc k)) SEND_EMAIL (w, t) = Inr (w', t')
      \<and> outbox w' = outbox w @ [(master_email N, task_subject t, reply_content t)]
      \<and> llm_log w' = llm_log w \<and> tool_log w' = tool_log w
      \<and> email_replied t' \<and> status t' = ''email_proccessed''
      \<and> (\<forall>msg. send_simple_email N (length (outbox w)) (master_email N) (task_subject t)
                   (reply_content t) = SendResult False msg \<longrightarrow> error t' = Some msg)
      \<and> (\<forall>e. send_simple_email N (length (outbox w)) (master_email N) (task_subject t)
                   (reply_content t) = SendRaised e \<longrightarrow> error t' = Some e)"
proof -
  let ?r = "mark_as_replied (send_email N (w, t))"
  have "run_from N (Suc (Suc k)) SEND_EMAIL (w, t) = Inr (fst ?r, snd ?r)"
    by (simp add: run_from_send)
  moreover have "outbox (fst ?r) = outbox w @ [(master_email N, task_subject t, reply_content t)]"
    "llm_log (fst ?r) = llm_log w" "tool_log (fst ?r) = tool_log w"
    by (simp_all add: mark_as_replied_simps send_email_outbox)
  moreover have "email_replied (snd ?r)" "status (snd ?r) = ''email_proccessed''"
    by (simp_all add: mark_as_replied_simps)
  moreover have "\<forall>msg. send_simple_email N (length (outbox w)) (master_email N) (task_subject t)
                   (reply_content t) = SendResult False msg \<longrightarrow> error (snd ?r) = Some msg"
    by (simp add: mark_as_replied_simps send_email_error)
  moreover have "\<forall>e. send_simple_email N (length (outbox w)) (master_email N) (task_subject t)
                   (reply_content t) = SendRaised e \<longrightarrow> error (snd ?r) = Some e"
    by (simp add: mark_as_replied_simps send_email_error)
  ultimately show ?thesis by blast
qed

text \<open>A service that reports failure, a service that raises, and one that succeeds.\<close>

theorem send_outcome_recorded_witness:
  "map_option error (final_task (run_from smtp_down_nodes 2 SEND_EMAIL (empty_world, answered_task)))
     = Some (Some ''SMTP down'')
   \<and> map_option error (final_task (run_from smtp_raising_nodes 2 SEND_EMAIL (empty_world, answered_task)))
     = Some (Some ''connection reset'')
   \<and> map_option email_replied (final_task (run_from demo_nodes 2 SEND_EMAIL (empty_world, answered_task)))
     = Some True"
proof -
  have "map_option error (final_task (run_from smtp_down_nodes (Suc (Suc 0)) SEND_EMAIL
          (empty_world, answered_task))) = Some (Some ''SMTP down'')"
    using send_outcome_recorded [of smtp_down_nodes 0 empty_world answered_task]
    by (auto simp add: final_task_def smtp_down_nodes_def)
  moreover have "map_option error (final_task (run_from smtp_raising_nodes (Suc (Suc 0)) SEND_EMAIL
          (empty_world, answered_task))) = Some (Some ''connection reset'')"
    using send_outcome_recorded [of smtp_raising_nodes 0 empty_world answered_task]
    by (auto simp add: final_task_def smtp_raising_nodes_def)
  moreover have "map_option email_replied (final_task (run_from demo_nodes (Suc (Suc 0)) SEND_EMAIL
          (empty_world, answered_task))) = Some True"
    using send_outcome_recorded [of demo_nodes 0 empty_world answered_task]
    by (auto simp add: final_task_def)
  ultimately show ?thesis by (simp add: numeral_2_eq_2)
qed

subsection \<open>Every finished run is marked\<close>

lemma run_from_passes_mark:
  "n \<noteq> END \<Longrightarrow> run_from N fuel n s = Inr r \<Longrightarrow> \<exists>s0. r = mark_as_replied s0"
proof (induction fuel arbitrary: n s)
  case 0
  then show ?case by (cases n) simp_all
next
  case (Suc k)
  show ?case
  proof (cases n)
    case PROCESS_EMAIL
    with Suc.prems
    have "run_from N k (route_after_process (snd (process_email N s))) (process_email N s) = Inr r"
      by (simp add: Let_def)
    then show ?thesis using Suc.IH route_not_end by blast
  next
    case TOOLS
    with Suc.prems obtain s' where "run_from N k PROCESS_EMAIL s' = Inr r"
      by (auto split: option.splits)
    then show ?thesis using Suc.IH by blast
  next
    case SEND_EMAIL
    with Suc.prems have "run_from N k MARK_AS_REPLIED (send_email N s) = Inr r" by simp
    then show ?thesis using Suc.IH by blast
  next
    case MARK_AS_REPLIED
    with Suc.prems have "r = mark_as_replied s" by simp
    then show ?thesis by blast
  next
    case END
    with Suc.prems show ?thesis by simp
  qed
qed

text \<open>
  C9. A run from the entry point that ends without raising, whatever the recursion
  limit, the collaborators and the initial state, ends in a state produced by
  \<open>mark_as_replied\<close>: \<open>email_replied\<close> is true and \<open>status\<close> is \<open>email_proccessed\<close>.
\<close>

theorem finished_run_is_marked:
  assumes "run_from N fuel PROCESS_EMAIL s = Inr r"
  shows "email_replied (snd r) \<and> status (snd r) = ''email_proccessed''
         \<and> (\<exists>s0. r = mark_as_replied s0)"
proof -
  from run_from_passes_mark [OF _ assms] obtain s0 where r: "r = mark_as_replied s0" by auto
  have "email_replied (snd r)" "status (snd r) = ''email_proccessed''"
    by (simp_all add: r mark_as_replied_simps)
  with r show ?thesis by blast
qed

text \<open>The stranger's mail: the run ends with \<open>email_replied\<close> true although nothing was sent.\<close>

theorem finished_run_is_marked_witness:
  "run demo_nodes stranger_mail = Inr stranger_final
   \<and> email_replied (snd stranger_final) \<and> status (snd stranger_final) = ''email_proccessed''
   \<and> outbox (fst stranger_final) = []"
proof -
  have h: "run_from demo_nodes (recursion_limit - 1) PROCESS_EMAIL
             (empty_world, initial_state stranger_mail) = Inr stranger_final"
    by code_simp
  have "outbox (fst stranger_final) = []"
    by (simp add: stranger_final_def empty_world_def)
  with h finished_run_is_marked [OF h] show ?thesis
    by (simp add: run_def)
qed

subsection \<open>The recipient of the reply\<close>

text \<open>
  C10. The node \<open>send_email\<close> adds exactly one call of the mail service, and its
  recipient is the configured master address, whatever the state, and so whatever the
  sender, recipient and cc of the incoming mail.
\<close>

theorem reply_recipient_is_master:
  "map fst (outbox (fst (send_email N (w, t)))) = map fst (outbox w) @ [master_email N]"
  by (simp add: send_email_outbox)

section \<open>Properties of the cache of processed ids\<close>

lemma enumeratesD:
  "enumerates order \<Longrightarrow> finite S \<Longrightarrow> set (order S) = S \<and> distinct (order S)"
  by (simp add: enumerates_def)

lemma enumerates_length:
  assumes "enumerates order" and "finite S"
  shows "length (order S) = card S"
  using enumeratesD [OF assms] distinct_card [of "order S"] by simp

lemma card_evict_first:
  assumes "enumerates order" and "n \<le> card S" and "finite S"
  shows "card (S - set (take n (order S))) = card S - n"
proof -
  have e: "set (order S) = S" "distinct (order S)" using enumeratesD [OF assms(1,3)] by simp_all
  have len: "length (order S) = card S" using enumerates_length [OF assms(1,3)] .
  have sub: "set (take n (order S)) \<subseteq> S" using e(1) set_take_subset by fastforce
  have "card (set (take n (order S))) = n"
    using e(2) len assms(2) by (simp add: distinct_card)
  then show ?thesis using sub by (simp add: card_Diff_subset)
qed

lemma card_keep_last:
  assumes "enumerates order" and "n \<le> card S" and "finite S"
  shows "card (set (drop (length (order S) - n) (order S))) = n"
proof -
  have e: "distinct (order S)" using enumeratesD [OF assms(1,3)] by simp
  have len: "length (order S) = card S" using enumerates_length [OF assms(1,3)] .
  have "card (set (drop (length (order S) - n) (order S))) = length (drop (length (order S) - n) (order S))"
    using e by (simp add: distinct_card)
  then show ?thesis using len assms(2) by simp
qed

lemma card_gt_finite: "n < card S \<Longrightarrow> finite S"
  by (rule card_ge_0_finite) linarith

lemma remember_processed_evicts:
  assumes "enumerates order" and "card (insert email_id processed) > 1000"
  shows "card (remember_processed order email_id processed) = card (insert email_id processed) - 500"
proof -
  let ?S = "insert email_id processed"
  have fin: "finite ?S" using assms(2) by (rule card_gt_finite)
  have le: "500 \<le> card ?S" using assms(2) by linarith
  have "remember_processed order email_id processed = ?S - set (take 500 (order ?S))"
    unfolding remember_processed_def Let_def using assms(2) by (rule if_P)
  then show ?thesis
    using card_evict_first [OF assms(1) le fin] by (simp only:)
qed

lemma remember_processed_keeps:
  "card (insert email_id processed) \<le> 1000 \<Longrightarrow>
   remember_processed order email_id processed = insert email_id processed"
  by (simp add: remember_processed_def Let_def)

lemma card_insert_le_Suc: "card (insert x S) \<le> Suc (card S)"
  by (cases "finite S") (simp_all add: card_insert_if)

lemma remember_processed_bound:
  assumes "enumerates order" and "card processed \<le> 1000"
  shows "card (remember_processed order email_id processed) \<le> 1000"
proof (cases "card (insert email_id processed) > 1000")
  case True
  have "card (insert email_id processed) \<le> 1001"
    using card_insert_le_Suc [of email_id processed] assms(2) by simp
  then show ?thesis using remember_processed_evicts [OF assms(1) True] by simp
next
  case False
  then show ?thesis by (simp add: remember_processed_keeps)
qed

lemma on_new_email_bound:
  "enumerates order \<Longrightarrow> card processed \<le> 1000 \<Longrightarrow>
   card (fst (on_new_email order ids processed)) \<le> 1000"
proof (induction ids arbitrary: processed)
  case Nil
  then show ?case by simp
next
  case (Cons x xs)
  then show ?case
    by (simp add: Let_def remember_processed_bound)
qed

lemma trim_bound:
  assumes "enumerates order"
  shows "card (trim_processed_uids order processed) \<le> 1000"
    and "card processed > 1000 \<Longrightarrow> card (trim_processed_uids order processed) = 500"
proof -
  show "card processed > 1000 \<Longrightarrow> card (trim_processed_uids order processed) = 500"
  proof -
    assume a: "card processed > 1000"
    then have fin: "finite processed" by (rule card_gt_finite)
    have le: "500 \<le> card processed" using a by linarith
    have "trim_processed_uids order processed
            = set (drop (length (order processed) - 500) (order processed))"
      unfolding trim_processed_uids_def using a by (rule if_P)
    then show ?thesis using card_keep_last [OF assms le fin] by (simp only:)
  qed
  then show "card (trim_processed_uids order processed) \<le> 1000"
    by (cases "card processed > 1000") (simp_all add: trim_processed_uids_def)
qed

lemma on_new_email_fresh:
  "distinct ids \<Longrightarrow> set ids \<inter> processed = {} \<Longrightarrow> finite processed \<Longrightarrow>
   card processed + length ids \<le> 1000 \<Longrightarrow>
   on_new_email order ids processed = (processed \<union> set ids, ids)"
proof (induction ids arbitrary: processed)
  case Nil
  then show ?case by simp
next
  case (Cons x xs)
  have x: "x \<notin> processed" using Cons.prems(2) by auto
  have c: "card (insert x processed) = Suc (card processed)"
    using x Cons.prems(3) by simp
  then have r: "remember_processed order x processed = insert x processed"
    using Cons.prems(4) by (simp add: remember_processed_keeps)
  have "on_new_email order xs (insert x processed) = (insert x processed \<union> set xs, xs)"
    using Cons.prems c by (intro Cons.IH) auto
  then show ?case using x r by (simp add: Let_def)
qed

lemma on_new_email_append:
  "fst (on_new_email order (xs @ ys) processed)
     = fst (on_new_email order ys (fst (on_new_email order xs processed)))"
  by (induction xs arbitrary: processed) (simp_all add: Let_def)

lemma on_new_email_1001:
  assumes "enumerates order" and "distinct ids" and "length ids = 1001"
  shows "card (fst (on_new_email order ids {})) = 501"
proof -
  obtain xs x where ids: "ids = xs @ [x]"
    using assms(3) by (cases ids rule: rev_cases) auto
  have xs: "distinct xs" "x \<notin> set xs" "length xs = 1000"
    using assms(2,3) ids by auto
  have "on_new_email order xs {} = ({} \<union> set xs, xs)"
    using xs by (intro on_new_email_fresh) auto
  then have "fst (on_new_email order ids {}) = remember_processed order x (set xs)"
    using xs(2) by (simp add: ids on_new_email_append Let_def)
  moreover have "card (insert x (set xs)) = 1001"
    using xs by (simp add: distinct_card)
  ultimately show ?thesis
    using remember_processed_evicts [OF assms(1), of x "set xs"] by simp
qed

lemma enumerates_sorted: "enumerates (sorted_list_of_set :: nat set \<Rightarrow> nat list)"
  by (simp add: enumerates_def)

text \<open>
  The sizes, for every admissible enumeration. After any sequence of ids handled by
  \<open>on_new_email\<close> the cache holds at most 1000 ids; the 1001st distinct id triggers the
  eviction of 500 ids in one step and leaves 501; an eviction leaves more than 500 ids.
  The trimming statement of the IDLE listener leaves at most 1000 uids, and exactly 500
  after an eviction.
\<close>

lemma processed_cache_cardinality:
  assumes "enumerates order"
  shows "card (fst (on_new_email order ids {})) \<le> 1000
       \<and> (distinct ids \<and> length ids = 1001 \<longrightarrow> card (fst (on_new_email order ids {})) = 501)
       \<and> (1000 < card (insert email_id processed) \<longrightarrow>
             card (remember_processed order email_id processed) = card (insert email_id processed) - 500
           \<and> 500 < card (remember_processed order email_id processed))
       \<and> card (trim_processed_uids order uids) \<le> 1000
       \<and> (1000 < card uids \<longrightarrow> card (trim_processed_uids order uids) = 500)"
proof -
  have a: "card (fst (on_new_email order ids {})) \<le> 1000"
    using assms by (rule on_new_email_bound) simp
  have b: "distinct ids \<and> length ids = 1001 \<longrightarrow> card (fst (on_new_email order ids {})) = 501"
    using on_new_email_1001 [OF assms] by blast
  have c: "1000 < card (insert email_id processed) \<longrightarrow>
             card (remember_processed order email_id processed) = card (insert email_id processed) - 500
           \<and> 500 < card (remember_processed order email_id processed)"
  proof
    assume h: "1000 < card (insert email_id processed)"
    have e: "card (remember_processed order email_id processed) = card (insert email_id processed) - 500"
      using assms h by (rule remember_processed_evicts)
    then have "500 < card (remember_processed order email_id processed)" using h by linarith
    with e show "card (remember_processed order email_id processed) = card (insert email_id processed) - 500
           \<and> 500 < card (remember_processed order email_id processed)" by blast
  qed
  have d: "card (trim_processed_uids order uids) \<le> 1000"
    using assms by (rule trim_bound(1))
  have e: "1000 < card uids \<longrightarrow> card (trim_processed_uids order uids) = 500"
    using trim_bound(2) [OF assms] by blast
  from a b c d e show ?thesis by blast
qed

lemma newest_first_eviction:
  "fst (on_new_email sorted_list_of_set (rev [0..<1001::nat]) {}) = {500..<1001}"
proof -
  have split: "rev [0..<1001::nat] = rev [1..<1001] @ [0]"
    by (simp only: upt_conv_Cons [of 0 1001] rev.simps) simp
  have "on_new_email sorted_list_of_set (rev [1..<1001::nat]) {}
          = ({} \<union> set (rev [1..<1001]), rev [1..<1001])"
    by (rule on_new_email_fresh)
       (simp_all only: distinct_rev distinct_upt length_rev length_upt, simp_all)
  then have a: "fst (on_new_email sorted_list_of_set (rev [0..<1001::nat]) {})
                  = remember_processed sorted_list_of_set 0 {1..<1001}"
    unfolding split on_new_email_append by (simp add: Let_def)
  have ins: "insert (0::nat) {1..<1001} = {0..<1001}" by auto
  have c: "card {0..<1001::nat} = 1001" by simp
  have s: "sorted_list_of_set {0..<1001::nat} = [0..<1001]" by (rule sorted_list_of_set_range)
  have t: "take 500 [0..<1001::nat] = [0..<500]" by (simp only: take_upt) simp
  have "remember_processed sorted_list_of_set 0 {1..<1001::nat} = {0..<1001} - set [0..<500]"
    unfolding remember_processed_def Let_def ins s t using c by simp
  also have "\<dots> = {500..<1001}" by auto
  finally show ?thesis using a by simp
qed

text \<open>
  C5 at a concrete input. 1001 mails with distinct ids arrive, the id 1000 first and
  the id 0 last, and \<open>list(cache)\<close> enumerates the set in ascending order. The sizes
  are those of the claim with \<open>C = 500\<close>: the cache never holds more than \<open>2C\<close> ids
  between two mails, and the eviction triggered by mail \<open>2C + 1\<close> removes 500 ids in
  one batch and leaves 501. But the ids evicted are \<open>0, \<dots>, 499\<close>, the 500 that arrived
  last and the one just added among them, while the 501 oldest stay; the comment in the
  source says that the oldest 500 are removed.
\<close>

theorem eviction_drops_newest_ids:
  "fst (on_new_email sorted_list_of_set (rev [0..<1001::nat]) {}) = {500..<1001}
   \<and> card (fst (on_new_email sorted_list_of_set (rev [0..<1001::nat]) {})) = 501"
proof -
  show ?thesis unfolding newest_first_eviction by simp
qed

section \<open>Properties of the polling listener\<close>

subsection \<open>The mode\<close>

lemma process_new_emails_mode: "mode (process_new_emails emails L) = mode L"
  by (simp add: process_new_emails_def Let_def)

lemma run_polling_mode_safe_mode: "mode (fst (run_polling_mode_safe r L)) = mode L"
  by (simp add: run_polling_mode_safe_def Let_def process_new_emails_mode split: fetch_result.split)

lemma run_listener_mode: "mode (run_listener rs L) = mode L"
  by (induction rs arbitrary: L) (simp_all add: run_polling_mode_safe_mode)

lemma start_mode: "\<not> running L \<Longrightarrow> mode (start T L) = POLLING"
  by (simp add: start_def Let_def)

lemma process_new_emails_keeps:
  "running (process_new_emails emails L) = running L"
  "executor (process_new_emails emails L) = executor L"
  by (simp_all add: process_new_emails_def Let_def)

lemma run_polling_mode_safe_keeps:
  "running (fst (run_polling_mode_safe r L)) = running L"
  "executor (fst (run_polling_mode_safe r L)) = executor L"
  by (simp_all add: run_polling_mode_safe_def Let_def process_new_emails_keeps
      split: fetch_result.split)

lemma run_listener_keeps:
  "running (run_listener rs L) = running L"
  "executor (run_listener rs L) = executor L"
  by (induction rs arbitrary: L) (simp_all add: run_polling_mode_safe_keeps)

lemma run_listener_append:
  "run_listener (rs @ rs') L = run_listener rs' (run_listener rs L)"
proof (induction rs arbitrary: L)
  case Nil
  then show ?case by simp
next
  case (Cons r rs)
  show ?case
  proof (cases "running L")
    case True
    then show ?thesis using Cons.IH by simp
  next
    case False
    then show ?thesis by (cases rs') simp_all
  qed
qed

lemma start_facts:
  assumes "\<not> running L"
  shows "running (start T L)" and "executor (start T L)"
  using assms by (simp_all add: start_def Let_def split: fetch_result.split)

lemma start_ignores_idle:
  "start (T\<lparr>supports_idle := a, idle_handshake_ok := b\<rparr>) L = start T L"
  by (simp add: start_def)

text \<open>One iteration of the loop whose poll returns mails, on a running listener with a
  thread pool: the mails whose id differs from \<open>_last_uid\<close> are submitted as one unit.\<close>

lemma polling_iteration_submits:
  assumes "running L" and "executor L"
    and "filter (\<lambda>e. Some (msg_id e) \<noteq> last_uid L) emails \<noteq> []"
  shows "submitted (run_listener [Fetched emails] L)
           = submitted L @ [(futures_created L, filter (\<lambda>e. Some (msg_id e) \<noteq> last_uid L) emails)]"
    and "total_received (run_listener [Fetched emails] L)
           = total_received L + length (filter (\<lambda>e. Some (msg_id e) \<noteq> last_uid L) emails)"
    and "last_uid (run_listener [Fetched emails] L)
           = Some (msg_id (hd (filter (\<lambda>e. Some (msg_id e) \<noteq> last_uid L) emails)))"
    and "polling_count (run_listener [Fetched emails] L) = polling_count L + 1"
  using assms
  by (simp_all add: run_polling_mode_safe_def process_new_emails_def Let_def)

text \<open>
  C8, as the code has it. \<open>start\<close> on a stopped listener sets the mode to \<open>POLLING\<close>
  and does not consult what the server supports; no iteration of the listener loop
  changes the mode or stops the loop. Polling works on its own: after any earlier
  iterations, failed and raising polls among them, a poll that returns mails whose id
  differs from \<open>_last_uid\<close> submits them to the thread pool as one unit, counts them and
  records the id of the first.
\<close>

theorem listener_always_polls:
  assumes "\<not> running L"
  shows "mode (start T L) = POLLING
       \<and> mode (run_listener rs (start T L)) = POLLING
       \<and> running (run_listener rs (start T L))
       \<and> start (T\<lparr>supports_idle := a, idle_handshake_ok := b\<rparr>) L = start T L
       \<and> (let L' = run_listener rs (start T L);
               new_emails = filter (\<lambda>e. Some (msg_id e) \<noteq> last_uid L') emails
           in new_emails \<noteq> [] \<longrightarrow>
                submitted (run_listener (rs @ [Fetched emails]) (start T L))
                  = submitted L' @ [(futures_created L', new_emails)]
              \<and> total_received (run_listener (rs @ [Fetched emails]) (start T L))
                  = total_received L' + length new_emails
              \<and> last_uid (run_listener (rs @ [Fetched emails]) (start T L))
                  = Some (msg_id (hd new_emails))
              \<and> polling_count (run_listener (rs @ [Fetched emails]) (start T L))
                  = polling_count L' + 1)"
proof -
  let ?L = "run_listener rs (start T L)"
  have r: "running ?L" and e: "executor ?L"
    using start_facts [OF assms] by (simp_all add: run_listener_keeps)
  have m: "mode (start T L) = POLLING" "mode ?L = POLLING"
    using assms by (simp_all add: run_listener_mode start_mode)
  have i: "start (T\<lparr>supports_idle := a, idle_handshake_ok := b\<rparr>) L = start T L"
    by (rule start_ignores_idle)
  have p: "filter (\<lambda>e. Some (msg_id e) \<noteq> last_uid ?L) emails \<noteq> [] \<longrightarrow>
             submitted (run_listener (rs @ [Fetched emails]) (start T L))
               = submitted ?L @ [(futures_created ?L, filter (\<lambda>e. Some (msg_id e) \<noteq> last_uid ?L) emails)]
           \<and> total_received (run_listener (rs @ [Fetched emails]) (start T L))
               = total_received ?L + length (filter (\<lambda>e. Some (msg_id e) \<noteq> last_uid ?L) emails)
           \<and> last_uid (run_listener (rs @ [Fetched emails]) (start T L))
               = Some (msg_id (hd (filter (\<lambda>e. Some (msg_id e) \<noteq> last_uid ?L) emails)))
           \<and> polling_count (run_listener (rs @ [Fetched emails]) (start T L))
               = polling_count ?L + 1"
    unfolding run_listener_append
    using polling_iteration_submits [OF r e] by blast
  show ?thesis
    unfolding Let_def using m r i p by blast
qed

text \<open>
  A server that supports IDLE; after start-up a poll raises, the next one fails, and the
  third returns the master's mail, which is submitted to the pool.
\<close>

theorem listener_always_polls_witness:
  "mode (run_listener [FetchRaised, FetchFailed, Fetched [master_mail]]
           (start idle_capable_transport new_listener)) = POLLING
   \<and> submitted (run_listener [FetchRaised, FetchFailed, Fetched [master_mail]]
           (start idle_capable_transport new_listener)) = [(0, [master_mail])]"
proof -
  let ?L = "run_listener [FetchRaised, FetchFailed] (start idle_capable_transport new_listener)"
  have n: "\<not> running new_listener" by (simp add: new_listener_def)
  have L: "last_uid ?L = None" "submitted ?L = []" "futures_created ?L = 0"
    by (simp_all add: start_def new_listener_def idle_capable_transport_def
        run_polling_mode_safe_def Let_def)
  have f: "filter (\<lambda>e. Some (msg_id e) \<noteq> None) [master_mail] = [master_mail]"
    by simp
  have "mode (run_listener ([FetchRaised, FetchFailed] @ [Fetched [master_mail]])
           (start idle_capable_transport new_listener)) = POLLING"
    using listener_always_polls [OF n] by blast
  moreover have "submitted (run_listener ([FetchRaised, FetchFailed] @ [Fetched [master_mail]])
           (start idle_capable_transport new_listener)) = [(0, [master_mail])]"
    using listener_always_polls [OF n, of idle_capable_transport "[FetchRaised, FetchFailed]"
        True True "[master_mail]"]
    unfolding Let_def L f by simp
  ultimately show ?thesis by simp
qed

text \<open>
  C8 as stated fails for a server that advertises IDLE and acknowledges the IDLE
  command: the listener starts in \<open>POLLING\<close> mode, not in \<open>IDLE\<close> mode.
\<close>

theorem idle_never_entered_counterexample:
  "supports_idle idle_capable_transport \<and> idle_handshake_ok idle_capable_transport
   \<and> mode (start idle_capable_transport new_listener) \<noteq> IDLE
   \<and> mode (start idle_capable_transport new_listener) = POLLING"
  by (simp add: idle_capable_transport_def start_def new_listener_def Let_def)

subsection \<open>Submitting a batch\<close>

lemma finish_one_empty: "submitted L = [] \<Longrightarrow> finish_one cb L = L"
  by (simp add: finish_one_def)

lemma drain_empty: "submitted L = [] \<Longrightarrow> drain cb n L = L"
  by (induction n) (simp_all add: finish_one_empty)

lemma finish_one_single:
  "submitted L = [(f, emails)] \<Longrightarrow>
   submitted (finish_one cb L) = [] \<and> completed_tasks (finish_one cb L) = completed_tasks L + 1
   \<and> total_received (finish_one cb L) = total_received L"
  by (simp add: finish_one_def on_task_complete_def Let_def)

lemma process_new_emails_submit:
  assumes "executor L" and "emails \<noteq> []"
  shows "submitted (process_new_emails emails L) = submitted L @ [(futures_created L, emails)]"
    and "pending_futures (process_new_emails emails L) = pending_futures L @ [futures_created L]"
    and "completed_tasks (process_new_emails emails L) = completed_tasks L"
    and "total_received (process_new_emails emails L) = total_received L + length emails"
  using assms by (simp_all add: process_new_emails_def Let_def)

text \<open>
  C4, as the code has it. \<open>_process_new_emails\<close> on a non-empty batch of \<open>N\<close> mails
  submits the whole batch as one unit of work and returns with the completed count
  unchanged; \<open>total_received\<close> grows by \<open>N\<close>. Once the pool has finished the unit,
  whether the callback returned or raised, the completed count has grown by exactly one.
\<close>

theorem batch_is_one_unit_of_work:
  assumes "executor L" and "emails \<noteq> []" and "submitted L = []"
  shows "submitted (process_new_emails emails L) = [(futures_created L, emails)]
       \<and> completed_tasks (process_new_emails emails L) = completed_tasks L
       \<and> total_received (process_new_emails emails L) = total_received L + length emails
       \<and> completed_tasks (drain new_email_callback (Suc n) (process_new_emails emails L))
           = completed_tasks L + 1"
proof -
  let ?L = "process_new_emails emails L"
  have s: "submitted ?L = [(futures_created L, emails)]"
    using process_new_emails_submit(1) [OF assms(1,2)] assms(3) by simp
  have c: "completed_tasks ?L = completed_tasks L"
    using assms(1,2) by (rule process_new_emails_submit(3))
  have t: "total_received ?L = total_received L + length emails"
    using assms(1,2) by (rule process_new_emails_submit(4))
  have f: "submitted (finish_one new_email_callback ?L) = []"
    "completed_tasks (finish_one new_email_callback ?L) = completed_tasks ?L + 1"
    using finish_one_single [OF s] by simp_all
  have "drain new_email_callback (Suc n) ?L = finish_one new_email_callback ?L"
    using drain_empty [OF f(1)] by simp
  then have "completed_tasks (drain new_email_callback (Suc n) ?L) = completed_tasks L + 1"
    using f(2) c by simp
  with s c t show ?thesis by blast
qed

lemma started_listener_facts:
  "executor started_listener" "submitted started_listener = []"
  "completed_tasks started_listener = 0" "total_received started_listener = 0"
  by (simp_all add: started_listener_def start_def new_listener_def Let_def idle_capable_transport_def)

text \<open>A batch of three mails whose callback raises.\<close>

theorem batch_is_one_unit_of_work_witness:
  "completed_tasks (drain raising_callback 3 (process_new_emails [master_mail, stranger_mail, self_mail] started_listener)) = 1
   \<and> total_received (process_new_emails [master_mail, stranger_mail, self_mail] started_listener) = 3"
proof -
  have "[master_mail, stranger_mail, self_mail] \<noteq> []" by simp
  from batch_is_one_unit_of_work [OF started_listener_facts(1) this started_listener_facts(2), of raising_callback 2]
  show ?thesis by (simp add: started_listener_facts numeral_3_eq_3)
qed

text \<open>
  C4 as stated fails for a batch of two mails: one unit of work is submitted and the
  completed count grows by one, not by two.
\<close>

theorem completed_count_counterexample:
  "completed_tasks (drain returning_callback 2 (process_new_emails [master_mail, stranger_mail] started_listener))
     - completed_tasks started_listener = 1
   \<and> length [master_mail, stranger_mail] = 2
   \<and> length (submitted (process_new_emails [master_mail, stranger_mail] started_listener)) = 1"
  by (simp add: started_listener_def start_def new_listener_def Let_def idle_capable_transport_def
      process_new_emails_def numeral_2_eq_2 finish_one_def on_task_complete_def)

end
